theory Spec2Isabelle
  imports Complex_Main "HOL-Library.Sublist"
begin

section \<open>Textify: the TextOverlay renderer of textify.py\<close>

text \<open>
  The module draws on a NumPy image through OpenCV. OpenCV is not part of the
  repository, so the embedding keeps every call to it as a value: the buffer
  records the sequence of drawing primitives applied to it, with the arguments
  the source passes. Text measurement (\<open>cv2.getTextSize\<close>) is a parameter of
  the operations that use it. Python integers are \<open>int\<close>; the one float
  computation of the source (the baseline of a text line) is exact rational
  arithmetic followed by Python's \<open>int()\<close>, which truncates toward zero.
\<close>

subsection \<open>Data\<close>

type_synonym colour = "int \<times> int \<times> int"
type_synonym point = "int \<times> int"
type_synonym bbox = "int \<times> int \<times> int \<times> int"

text \<open>The calls into OpenCV that write to the buffer, with their arguments in
  the order of the Python call (the image argument left out).\<close>

datatype prim =
    FillPoly "point list" colour
  | Ellipse point "int \<times> int" int int int colour int
  | Line point point colour int
  | PutText string point int rat colour int int

text \<open>An \<open>ndarray\<close>: its \<open>shape\<close> tuple, and its content as the primitives
  drawn on it since it was handed to the renderer.\<close>

record ndarray =
  shape :: "nat list"
  drawn :: "prim list"

datatype pyobj = Ndarray ndarray | NotNdarray

text \<open>The exceptions of the module: the \<open>TypeError\<close> of the constructor, and the
  two \<open>ValueError\<close>s of \<open>put_text\<close>, told apart by where they are raised (\<open>max\<close> of
  an empty iterable, and a tuple unpack of the wrong length).\<close>

datatype error = TypeError | ValueError_max_empty | ValueError_unpack

definition FONT_HERSHEY_SIMPLEX :: int where
  "FONT_HERSHEY_SIMPLEX = 0"

definition LINE_AA :: int where
  "LINE_AA = 16"

text \<open>The attributes of a \<open>TextOverlay\<close> object; \<open>image_buf\<close> is \<open>self.image\<close>.\<close>

record text_overlay =
  image_buf :: ndarray
  font :: int
  font_scale :: rat
  font_color :: colour
  thickness :: int
  line_type :: int
  margin :: int
  padding :: int
  bg_padding :: int
  corner_radius :: int
  background_color :: colour

subsection \<open>Construction and configuration\<close>

definition TextOverlay_init :: "pyobj \<Rightarrow> error + text_overlay" where
  "TextOverlay_init img =
     (case img of
        NotNdarray \<Rightarrow> Inl TypeError
      | Ndarray a \<Rightarrow>
          Inr \<lparr> image_buf = a,
                font = FONT_HERSHEY_SIMPLEX,
                font_scale = 1,
                font_color = (0, 0, 0),
                thickness = 2,
                line_type = LINE_AA,
                margin = 20,
                padding = 20,
                bg_padding = 10,
                corner_radius = 10,
                background_color = (255, 255, 255) \<rparr>)"

definition set_text_properties ::
  "text_overlay \<Rightarrow> rat \<Rightarrow> colour \<Rightarrow> int \<Rightarrow> colour \<Rightarrow> text_overlay" where
  "set_text_properties self fs fc th bg =
     self\<lparr> font_scale := fs, font_color := fc, thickness := th, background_color := bg \<rparr>"

text \<open>A call site of \<open>set_text_properties\<close>: each argument is given (\<open>Some\<close>) or
  omitted (\<open>None\<close>); an omitted argument takes the default of the \<open>def\<close> line.\<close>

definition set_text_properties_call ::
  "text_overlay \<Rightarrow> rat option \<Rightarrow> colour option \<Rightarrow> int option \<Rightarrow> colour option \<Rightarrow> text_overlay" where
  "set_text_properties_call self fs fc th bg =
     set_text_properties self
       (case fs of None \<Rightarrow> 1 | Some v \<Rightarrow> v)
       (case fc of None \<Rightarrow> (0, 0, 0) | Some v \<Rightarrow> v)
       (case th of None \<Rightarrow> 2 | Some v \<Rightarrow> v)
       (case bg of None \<Rightarrow> (255, 255, 255) | Some v \<Rightarrow> v)"

subsection \<open>Drawing\<close>

text \<open>In-place drawing on \<open>self.image\<close>: the primitives are appended to the
  buffer's record.\<close>

definition emit :: "prim list \<Rightarrow> text_overlay \<Rightarrow> text_overlay" where
  "emit cs self = self\<lparr> image_buf := (image_buf self)\<lparr> drawn := drawn (image_buf self) @ cs \<rparr> \<rparr>"

text \<open>The vertices are an \<open>int32\<close> array in the source; pixel coordinates are
  far inside that range and are kept as integers here.\<close>

definition draw_rounded_rectangle_calls ::
  "point \<Rightarrow> point \<Rightarrow> int \<Rightarrow> colour \<Rightarrow> int \<Rightarrow> prim list" where
  "draw_rounded_rectangle_calls start_point end_point radius color thick =
     (let vertices =
        [ (fst start_point + radius, snd start_point),
          (fst end_point - radius, snd start_point),
          (fst end_point, snd start_point + radius),
          (fst end_point, snd end_point - radius),
          (fst end_point - radius, snd end_point),
          (fst start_point + radius, snd end_point),
          (fst start_point, snd end_point - radius),
          (fst start_point, snd start_point + radius) ]
      in [ FillPoly vertices color,
           Ellipse (fst start_point + radius, snd start_point + radius) (radius, radius) 180 0 90 color thick,
           Ellipse (fst end_point - radius, snd start_point + radius) (radius, radius) 270 0 90 color thick,
           Ellipse (fst end_point - radius, snd end_point - radius) (radius, radius) 0 0 90 color thick,
           Ellipse (fst start_point + radius, snd end_point - radius) (radius, radius) 90 0 90 color thick ])"

definition draw_rounded_rectangle ::
  "text_overlay \<Rightarrow> point \<Rightarrow> point \<Rightarrow> int \<Rightarrow> colour \<Rightarrow> int \<Rightarrow> text_overlay" where
  "draw_rounded_rectangle self start_point end_point radius color thick =
     emit (draw_rounded_rectangle_calls start_point end_point radius color thick) self"

definition draw_bbox_calls :: "text_overlay \<Rightarrow> bbox \<Rightarrow> colour \<Rightarrow> int \<Rightarrow> prim list" where
  "draw_bbox_calls self b color thick0 =
     (case b of (b0, b1, b2, b3) \<Rightarrow>
      let thick = thick0 + 1;
          start_point = (b0, b1);
          end_point = (b0 + b2, b1 + b3);
          radius = corner_radius self;
          top_left = start_point;
          top_right = (fst end_point, snd start_point);
          bottom_left = (fst start_point, snd end_point);
          bottom_right = end_point
      in [ Line (fst top_left + radius, snd top_left) (fst top_right - radius, snd top_right) color thick,
           Line (fst top_right, snd top_right + radius) (fst bottom_right, snd bottom_right - radius) color thick,
           Line (fst bottom_right - radius, snd bottom_right) (fst bottom_left + radius, snd bottom_left) color thick,
           Line (fst bottom_left, snd bottom_left - radius) (fst top_left, snd top_left + radius) color thick,
           Ellipse (fst top_left + radius, snd top_left + radius) (radius, radius) 180 0 90 color thick,
           Ellipse (fst top_right - radius, snd top_right + radius) (radius, radius) 270 0 90 color thick,
           Ellipse (fst bottom_right - radius, snd bottom_right - radius) (radius, radius) 0 0 90 color thick,
           Ellipse (fst bottom_left + radius, snd bottom_left - radius) (radius, radius) 90 0 90 color thick ])"

definition draw_bbox :: "text_overlay \<Rightarrow> bbox \<Rightarrow> colour \<Rightarrow> int \<Rightarrow> text_overlay" where
  "draw_bbox self b color thick0 = emit (draw_bbox_calls self b color thick0) self"

subsection \<open>Python built-ins used by \<open>put_text\<close>\<close>

text \<open>\<open>max\<close> over an iterable raises \<open>ValueError\<close> on an empty one; otherwise it
  keeps the running maximum from the first element on.\<close>

definition py_max :: "int list \<Rightarrow> error + int" where
  "py_max xs = (case xs of [] \<Rightarrow> Inl ValueError_max_empty | x # rest \<Rightarrow> Inr (foldl max x rest))"

definition py_sum :: "int list \<Rightarrow> int" where
  "py_sum xs = foldl (+) 0 xs"

text \<open>\<open>h, w, _ = self.image.shape\<close> raises \<open>ValueError\<close> unless the shape has
  exactly three entries.\<close>

definition unpack3 :: "nat list \<Rightarrow> error + (int \<times> int \<times> int)" where
  "unpack3 s = (case s of [h, w, c] \<Rightarrow> Inr (int h, int w, int c) | _ \<Rightarrow> Inl ValueError_unpack)"

definition startswith :: "string \<Rightarrow> string \<Rightarrow> bool" where
  "startswith s p = prefix p s"

text \<open>\<open>str.replace(old, new)\<close>: every non-overlapping occurrence of \<open>old\<close>,
  scanning from the left. \<open>replace_scan\<close> is the scan for a non-empty \<open>old\<close>.\<close>

function replace_scan :: "string \<Rightarrow> string \<Rightarrow> string \<Rightarrow> string" where
  "replace_scan old new [] = []"
| "replace_scan old new (c # cs) =
     (if old \<noteq> [] \<and> prefix old (c # cs)
      then new @ replace_scan old new (drop (length old) (c # cs))
      else c # replace_scan old new cs)"
  by pat_completeness auto
termination
  by (relation "measure (\<lambda>(old, new, s). length s)") auto

definition str_replace :: "string \<Rightarrow> string \<Rightarrow> string \<Rightarrow> string" where
  "str_replace s old new =
     (if old = [] then new @ concat (map (\<lambda>c. c # new) s) else replace_scan old new s)"

text \<open>\<open>dict.get(key, default)\<close> on a dictionary written as its item list.\<close>

definition dict_get :: "('k \<times> 'v) list \<Rightarrow> 'k \<Rightarrow> 'v \<Rightarrow> 'v" where
  "dict_get d k dflt = (case map_of d k of Some v \<Rightarrow> v | None \<Rightarrow> dflt)"

text \<open>\<open>int(x)\<close> of a float: truncation toward zero.\<close>

definition py_int :: "rat \<Rightarrow> int" where
  "py_int q = (if 0 \<le> q then \<lfloor>q\<rfloor> else \<lceil>q\<rceil>)"

subsection \<open>Text layout\<close>

text \<open>\<open>cv2.getTextSize(text, font, font_scale, thickness)[0]\<close> is the parameter
  \<open>getTextSize\<close>: the measured (width, height) of one line.\<close>

type_synonym measurer = "string \<Rightarrow> int \<Rightarrow> rat \<Rightarrow> int \<Rightarrow> int \<times> int"

definition text_sizes :: "measurer \<Rightarrow> text_overlay \<Rightarrow> string list \<Rightarrow> (int \<times> int) list" where
  "text_sizes getTextSize self texts =
     map (\<lambda>text. getTextSize text (font self) (font_scale self) (thickness self)) texts"

definition max_text_width :: "text_overlay \<Rightarrow> (int \<times> int) list \<Rightarrow> error + int" where
  "max_text_width self sizes =
     (case py_max (map fst sizes) of
        Inl e \<Rightarrow> Inl e
      | Inr m \<Rightarrow> Inr (m + 2 * bg_padding self))"

definition total_text_height :: "text_overlay \<Rightarrow> string list \<Rightarrow> (int \<times> int) list \<Rightarrow> int" where
  "total_text_height self texts sizes =
     py_sum (map snd sizes) + (int (length texts) - 1) * padding self + 2 * bg_padding self"

text \<open>The dictionary \<open>positions\<close>, in the order it is written.\<close>

definition positions :: "text_overlay \<Rightarrow> bbox \<Rightarrow> int \<Rightarrow> int \<Rightarrow> (string \<times> point) list" where
  "positions self b mw th =
     (case b of (b0, b1, b2, b3) \<Rightarrow>
      [ (''inside_top_left'', (b0 + margin self, b1 + margin self)),
        (''inside_top_center'', (b0 + (b2 - mw) div 2, b1 + margin self)),
        (''inside_top_right'', (b0 + b2 - mw - margin self, b1 + margin self)),
        (''inside_bottom_left'', (b0 + margin self, b1 + b3 - th - margin self)),
        (''inside_bottom_center'', (b0 + (b2 - mw) div 2, b1 + b3 - th - margin self)),
        (''inside_bottom_right'', (b0 + b2 - mw - margin self, b1 + b3 - th - margin self)),
        (''outside_top_left'', (b0 + margin self, b1 - th - margin self)),
        (''outside_top_center'', (b0 + (b2 - mw) div 2, b1 - th - margin self)),
        (''outside_top_right'', (b0 + b2 - mw - margin self, b1 - th - margin self)),
        (''outside_bottom_left'', (b0 + margin self, b1 + b3 + margin self)),
        (''outside_bottom_center'', (b0 + (b2 - mw) div 2, b1 + b3 + margin self)),
        (''outside_bottom_right'', (b0 + b2 - mw - margin self, b1 + b3 + margin self)),
        (''outside_left'', (b0 - mw - margin self, b1 + (b3 - th) div 2)),
        (''outside_right'', (b0 + b2 + margin self, b1 + (b3 - th) div 2)) ])"

text \<open>Lines 148 to 156 of the source: the lookup of the starting position and
  the switch to the inside name. The result is the final \<open>position\<close> and \<open>(x, y)\<close>.\<close>

definition text_origin ::
  "text_overlay \<Rightarrow> (string \<times> point) list \<Rightarrow> string \<Rightarrow> int \<Rightarrow> int \<Rightarrow> int \<Rightarrow> int \<Rightarrow> string \<times> point" where
  "text_origin self tbl position mw th h w =
     (let xy = dict_get tbl position (margin self, margin self) in
      if startswith position ''outside''
      then (if fst xy < 0 \<or> fst xy + mw > w \<or> snd xy < 0 \<or> snd xy + th > h
            then (let position' = str_replace position ''outside'' ''inside''
                  in (position', dict_get tbl position' (margin self, margin self)))
            else (position, xy))
      else (position, xy))"

text \<open>The body of the loop over \<open>enumerate(zip(texts, text_sizes))\<close>: the
  \<open>cv2.putText\<close> call of line \<open>i\<close>.\<close>

definition text_base_y :: "text_overlay \<Rightarrow> int \<Rightarrow> nat \<Rightarrow> int \<times> int \<Rightarrow> int" where
  "text_base_y self y i sz =
     (let initial_y_offset = of_int (bg_padding self) - (1 / 2) * of_int (bg_padding self);
          text_y = of_int y + initial_y_offset + of_int (int i * (snd sz + padding self))
      in py_int (text_y + of_int (snd sz)))"

definition put_line :: "text_overlay \<Rightarrow> point \<Rightarrow> nat \<times> string \<times> (int \<times> int) \<Rightarrow> prim" where
  "put_line self xy e =
     (case e of (i, text, sz) \<Rightarrow>
        PutText text (fst xy, text_base_y self (snd xy) i sz)
          (font self) (font_scale self) (font_color self) (thickness self) (line_type self))"

definition text_calls :: "text_overlay \<Rightarrow> string list \<Rightarrow> (int \<times> int) list \<Rightarrow> point \<Rightarrow> prim list" where
  "text_calls self texts sizes xy = map (put_line self xy) (enumerate 0 (zip texts sizes))"

text \<open>Lines 158 to 166: the background panel, then the lines of text.\<close>

definition draw_block ::
  "text_overlay \<Rightarrow> string list \<Rightarrow> (int \<times> int) list \<Rightarrow> int \<Rightarrow> int \<Rightarrow> point \<Rightarrow> text_overlay" where
  "draw_block self texts sizes mw th xy =
     emit (text_calls self texts sizes xy)
       (draw_rounded_rectangle self
          (fst xy - bg_padding self, snd xy - bg_padding self)
          (fst xy + mw, snd xy + th)
          (corner_radius self) (background_color self) (- 1))"

text \<open>\<open>put_text\<close>. An exception leaves the buffer as it was drawn so far, so the
  error comes with the object's state at the raise. The caller passes every
  argument; the defaults of the \<open>def\<close> line are \<open>bbox = None\<close>,
  \<open>position = 'inside_top_left'\<close> and \<open>bbox_color = (0, 255, 0)\<close>. A bounding
  box is its four integers, so one that is given is never falsy.\<close>

definition put_text ::
  "measurer \<Rightarrow> text_overlay \<Rightarrow> string list \<Rightarrow> bbox option \<Rightarrow> string \<Rightarrow> colour
     \<Rightarrow> (error \<times> text_overlay) + text_overlay" where
  "put_text getTextSize self texts bbox_arg position bbox_color =
     (case (case bbox_arg of
              Some b \<Rightarrow> Inr (draw_bbox self b bbox_color (thickness self), b)
            | None \<Rightarrow>
                (case unpack3 (shape (image_buf self)) of
                   Inl e \<Rightarrow> Inl (e, self)
                 | Inr (h, w, c) \<Rightarrow> Inr (self, (0, 0, w, h)))) of
        Inl e \<Rightarrow> Inl e
      | Inr (self1, b) \<Rightarrow>
          (let sizes = text_sizes getTextSize self1 texts in
           case max_text_width self1 sizes of
             Inl e \<Rightarrow> Inl (e, self1)
           | Inr mw \<Rightarrow>
               (let th = total_text_height self1 texts sizes;
                    tbl = positions self1 b mw th
                in case unpack3 (shape (image_buf self1)) of
                     Inl e \<Rightarrow> Inl (e, self1)
                   | Inr (h, w, c) \<Rightarrow>
                       Inr (draw_block self1 texts sizes mw th
                              (snd (text_origin self1 tbl position mw th h w))))))"

subsection \<open>Observing the buffer\<close>

text \<open>The primitives one operation added to the buffer, and among them the
  \<open>cv2.putText\<close> calls, in the order they were made.\<close>

definition new_calls :: "text_overlay \<Rightarrow> text_overlay \<Rightarrow> prim list" where
  "new_calls before after = drop (length (drawn (image_buf before))) (drawn (image_buf after))"

fun is_put_text :: "prim \<Rightarrow> bool" where
  "is_put_text (PutText t org f fs col k lt) = True"
| "is_put_text (FillPoly vs col) = False"
| "is_put_text (Ellipse c ax a s e col k) = False"
| "is_put_text (Line p q col k) = False"

definition line_calls :: "text_overlay \<Rightarrow> text_overlay \<Rightarrow> prim list" where
  "line_calls before after = filter is_put_text (new_calls before after)"

text \<open>The y coordinate of the \<open>org\<close> argument of \<open>cv2.putText\<close>: the baseline
  of the drawn line.\<close>

fun baseline :: "prim \<Rightarrow> int" where
  "baseline (PutText t org f fs col k lt) = snd org"
| "baseline (FillPoly vs col) = 0"
| "baseline (Ellipse c ax a s e col k) = 0"
| "baseline (Line p q col k) = 0"

text \<open>The \<open>thickness\<close> argument of a line or arc call; \<open>cv2.fillPoly\<close> has none.\<close>

fun stroke_width :: "prim \<Rightarrow> int option" where
  "stroke_width (Line p q col k) = Some k"
| "stroke_width (Ellipse c ax a s e col k) = Some k"
| "stroke_width (FillPoly vs col) = None"
| "stroke_width (PutText t org f fs col k lt) = None"

fun is_fill :: "prim \<Rightarrow> bool" where
  "is_fill (FillPoly vs col) = True"
| "is_fill (Ellipse c ax a s e col k) = (k < 0)"
| "is_fill (Line p q col k) = False"
| "is_fill (PutText t org f fs col k lt) = False"

definition anchor_names :: "string list" where
  "anchor_names =
     [ ''inside_top_left'', ''inside_top_center'', ''inside_top_right'',
       ''inside_bottom_left'', ''inside_bottom_center'', ''inside_bottom_right'',
       ''outside_top_left'', ''outside_top_center'', ''outside_top_right'',
       ''outside_bottom_left'', ''outside_bottom_center'', ''outside_bottom_right'',
       ''outside_left'', ''outside_right'' ]"

subsection \<open>Pixels\<close>

text \<open>
  What a primitive does to the pixels is OpenCV's business. A backend \<open>paint\<close>
  gives each primitive its effect on a raster, and \<open>render\<close> replays a sequence
  of calls. The one property of OpenCV used below is that a stroke is local: a
  line or arc of positive width \<open>k\<close> changes no pixel farther than \<open>k\<close> from its
  path. For a line that is the rectangle spanned by its end points, widened by
  \<open>k\<close>. For a quarter arc of a circle it is the quadrant the arc lies in, widened
  by \<open>k\<close>, cut with the ring between the radii \<open>r - k\<close> and \<open>r + k\<close>; angles run
  clockwise from the x axis on the image, whose y axis points down, so the
  rotations 0, 90, 180 and 270 give the bottom-right, bottom-left, top-left and
  top-right quadrants. For any other ellipse call it is the square around the
  whole ellipse.
\<close>

type_synonym raster = "point \<Rightarrow> colour"
type_synonym backend = "prim \<Rightarrow> raster \<Rightarrow> raster"

definition render :: "backend \<Rightarrow> prim list \<Rightarrow> raster \<Rightarrow> raster" where
  "render paint cs r = foldl (\<lambda>r' c. paint c r') r cs"

fun is_stroke :: "prim \<Rightarrow> bool" where
  "is_stroke (Line p q col k) = (0 < k)"
| "is_stroke (Ellipse c ax a s e col k) = (0 < k)"
| "is_stroke (FillPoly vs col) = False"
| "is_stroke (PutText t org f fs col k lt) = False"

text \<open>The quadrant of a quarter arc of a circle, as the signs of x and y in it.\<close>

definition quarter :: "int \<times> int \<Rightarrow> int \<Rightarrow> int \<Rightarrow> int \<Rightarrow> (int \<times> int) option" where
  "quarter ax a s e =
     (if fst ax = snd ax \<and> s = 0 \<and> e = 90
      then (if a = 0 then Some (1, 1)
            else if a = 90 then Some (- 1, 1)
            else if a = 180 then Some (- 1, - 1)
            else if a = 270 then Some (1, - 1)
            else None)
      else None)"

text \<open>Within \<open>k\<close> of the quarter circle of radius \<open>r\<close> around \<open>c\<close> in the quadrant
  \<open>sg\<close>: in the widened quadrant and in the ring.\<close>

definition near_corner :: "point \<Rightarrow> int \<times> int \<Rightarrow> int \<Rightarrow> int \<Rightarrow> point \<Rightarrow> bool" where
  "near_corner c sg r k pt =
     (let dx = fst sg * (fst pt - fst c); dy = snd sg * (snd pt - snd c)
      in - k \<le> dx \<and> dx \<le> r + k \<and> - k \<le> dy \<and> dy \<le> r + k \<and>
         dx * dx + dy * dy \<le> (r + k) * (r + k) \<and>
         (r \<le> k \<or> (r - k) * (r - k) \<le> dx * dx + dy * dy))"

fun reach :: "prim \<Rightarrow> point \<Rightarrow> bool" where
  "reach (Line p q col k) pt =
     (min (fst p) (fst q) - k \<le> fst pt \<and> fst pt \<le> max (fst p) (fst q) + k \<and>
      min (snd p) (snd q) - k \<le> snd pt \<and> snd pt \<le> max (snd p) (snd q) + k)"
| "reach (Ellipse c ax a s e col k) pt =
     (case quarter ax a s e of
        Some sg \<Rightarrow> near_corner c sg (fst ax) k pt
      | None \<Rightarrow>
          (fst c - max (fst ax) (snd ax) - k \<le> fst pt \<and> fst pt \<le> fst c + max (fst ax) (snd ax) + k \<and>
           snd c - max (fst ax) (snd ax) - k \<le> snd pt \<and> snd pt \<le> snd c + max (fst ax) (snd ax) + k))"
| "reach (FillPoly vs col) pt = True"
| "reach (PutText t org f fs col k lt) pt = True"

definition strokes_local :: "backend \<Rightarrow> bool" where
  "strokes_local paint =
     (\<forall>c r pt. is_stroke c \<longrightarrow> \<not> reach c pt \<longrightarrow> paint c r pt = r pt)"

text \<open>The coarsest local backend: a stroke paints everything within its reach.\<close>

definition box_paint :: backend where
  "box_paint c r =
     (case c of
        Line p q col k \<Rightarrow> (\<lambda>pt. if reach c pt then col else r pt)
      | Ellipse ce ax a s e col k \<Rightarrow> (\<lambda>pt. if reach c pt then col else r pt)
      | FillPoly vs col \<Rightarrow> r
      | PutText t org f fs col k lt \<Rightarrow> r)"

text \<open>The pixels of a bounding box \<open>(x, y, w, h)\<close> that lie in its interior and
  away from its outline of corner radius \<open>r\<close> and stroke width \<open>k\<close>: more than
  \<open>k\<close> inside each of the four sides, and not within \<open>k\<close> of any of the four
  quarter circles at the corners.\<close>

definition interior_away :: "bbox \<Rightarrow> int \<Rightarrow> int \<Rightarrow> point \<Rightarrow> bool" where
  "interior_away b r k pt =
     (case b of (x, y, w, h) \<Rightarrow>
        x + k < fst pt \<and> fst pt < x + w - k \<and> y + k < snd pt \<and> snd pt < y + h - k \<and>
        \<not> near_corner (x + r, y + r) (- 1, - 1) r k pt \<and>
        \<not> near_corner (x + w - r, y + r) (1, - 1) r k pt \<and>
        \<not> near_corner (x + w - r, y + h - r) (1, 1) r k pt \<and>
        \<not> near_corner (x + r, y + h - r) (- 1, 1) r k pt)"

subsection \<open>Text measurement\<close>

text \<open>
  \<open>cv2.getTextSize\<close> takes the height of a text from the font, the scale and
  the thickness alone; the text decides the width only. \<open>put_text\<close> measures
  every line with the same font, scale and thickness.
\<close>

definition height_by_style :: "measurer \<Rightarrow> bool" where
  "height_by_style g = (\<forall>t t' f fs k. snd (g t f fs k) = snd (g t' f fs k))"

subsection \<open>The objects the class can produce\<close>

text \<open>A renderer comes from the constructor and changes through the four
  methods only; \<open>put_text\<close> leaves it changed also when it raises.\<close>

inductive reachable :: "text_overlay \<Rightarrow> bool" where
  constructed: "TextOverlay_init img = Inr s \<Longrightarrow> reachable s"
| configured: "reachable s \<Longrightarrow> reachable (set_text_properties s fs fc th bg)"
| rectangle_drawn: "reachable s \<Longrightarrow> reachable (draw_rounded_rectangle s p q r col k)"
| bbox_drawn: "reachable s \<Longrightarrow> reachable (draw_bbox s b col k)"
| text_put: "reachable s \<Longrightarrow> put_text g s texts bb pos col = Inr s' \<Longrightarrow> reachable s'"
| text_raised: "reachable s \<Longrightarrow> put_text g s texts bb pos col = Inl (e, s') \<Longrightarrow> reachable s'"

subsection \<open>Example objects\<close>

text \<open>A fresh 200 by 200 colour image, the renderer the constructor builds on
  it, and a text measurer in the manner of \<open>cv2.getTextSize\<close>: the width grows
  with the text, the height is fixed.\<close>

definition blank :: ndarray where
  "blank = \<lparr> shape = [200, 200, 3], drawn = [] \<rparr>"

definition overlay0 :: text_overlay where
  "overlay0 =
     \<lparr> image_buf = blank, font = FONT_HERSHEY_SIMPLEX, font_scale = 1, font_color = (0, 0, 0),
       thickness = 2, line_type = LINE_AA, margin = 20, padding = 20, bg_padding = 10,
       corner_radius = 10, background_color = (255, 255, 255) \<rparr>"

definition even_measure :: measurer where
  "even_measure text f fs k = (20 * int (length text) + k, 22)"

section \<open>Properties\<close>

subsection \<open>Helper facts\<close>

lemma emit_fields:
  "font (emit cs s) = font s" "font_scale (emit cs s) = font_scale s"
  "font_color (emit cs s) = font_color s" "thickness (emit cs s) = thickness s"
  "line_type (emit cs s) = line_type s" "margin (emit cs s) = margin s"
  "padding (emit cs s) = padding s" "bg_padding (emit cs s) = bg_padding s"
  "corner_radius (emit cs s) = corner_radius s" "background_color (emit cs s) = background_color s"
  "shape (image_buf (emit cs s)) = shape (image_buf s)"
  "drawn (image_buf (emit cs s)) = drawn (image_buf s) @ cs"
  by (simp_all add: emit_def)

lemma overlay0_fields:
  "image_buf overlay0 = blank" "font overlay0 = FONT_HERSHEY_SIMPLEX" "font_scale overlay0 = 1"
  "font_color overlay0 = (0, 0, 0)" "thickness overlay0 = 2" "line_type overlay0 = LINE_AA"
  "margin overlay0 = 20" "padding overlay0 = 20" "bg_padding overlay0 = 10"
  "corner_radius overlay0 = 10" "background_color overlay0 = (255, 255, 255)"
  "shape blank = [200, 200, 3]" "drawn blank = []"
  by (simp_all add: overlay0_def blank_def)

lemma shape_overlay0: "shape (image_buf overlay0) = [200, 200, 3]"
  by (simp add: overlay0_fields)

text \<open>The example renderer is the one the constructor returns for the blank image.\<close>

lemma overlay0_constructed: "TextOverlay_init (Ndarray blank) = Inr overlay0"
  by (simp add: TextOverlay_init_def overlay0_def)

subsection \<open>Configuration\<close>

text \<open>
  Claim C9. \<open>set_text_properties\<close> overwrites exactly the four fields font scale,
  font colour, thickness and background colour with its arguments; the font,
  the line type, the margin, the padding, the background padding, the corner
  radius and the image buffer are the ones the object had before.
\<close>

theorem set_text_properties_frame:
  "font_scale (set_text_properties self fs fc th bg) = fs \<and>
   font_color (set_text_properties self fs fc th bg) = fc \<and>
   thickness (set_text_properties self fs fc th bg) = th \<and>
   background_color (set_text_properties self fs fc th bg) = bg \<and>
   font (set_text_properties self fs fc th bg) = font self \<and>
   line_type (set_text_properties self fs fc th bg) = line_type self \<and>
   margin (set_text_properties self fs fc th bg) = margin self \<and>
   padding (set_text_properties self fs fc th bg) = padding self \<and>
   bg_padding (set_text_properties self fs fc th bg) = bg_padding self \<and>
   corner_radius (set_text_properties self fs fc th bg) = corner_radius self \<and>
   image_buf (set_text_properties self fs fc th bg) = image_buf self"
  by (simp add: set_text_properties_def)

text \<open>
  Claim C10. An argument omitted in a call of \<open>set_text_properties\<close> resets its
  field to the value the constructor gives it (font scale 1.0, font colour
  black, thickness 2, background colour white), whatever the field held. The
  four fields after a call depend on the arguments alone, never on the object's
  earlier values, so no call updates some of them and keeps the others.
\<close>

theorem set_text_properties_omitted_resets:
  "\<exists>fresh. TextOverlay_init (Ndarray a) = Inr fresh \<and>
     font_scale (set_text_properties_call self None fc th bg) = font_scale fresh \<and>
     font_scale fresh = 1 \<and>
     font_color (set_text_properties_call self fs None th bg) = font_color fresh \<and>
     font_color fresh = (0, 0, 0) \<and>
     thickness (set_text_properties_call self fs fc None bg) = thickness fresh \<and>
     thickness fresh = 2 \<and>
     background_color (set_text_properties_call self fs fc th None) = background_color fresh \<and>
     background_color fresh = (255, 255, 255) \<and>
     font_scale (set_text_properties_call self fs fc th bg) = font_scale (set_text_properties_call other fs fc th bg) \<and>
     font_color (set_text_properties_call self fs fc th bg) = font_color (set_text_properties_call other fs fc th bg) \<and>
     thickness (set_text_properties_call self fs fc th bg) = thickness (set_text_properties_call other fs fc th bg) \<and>
     background_color (set_text_properties_call self fs fc th bg) = background_color (set_text_properties_call other fs fc th bg)"
  by (simp add: TextOverlay_init_def set_text_properties_call_def set_text_properties_def)

subsection \<open>Rounded rectangles and bounding boxes\<close>

text \<open>
  Claim C2. The claim asks that a thickness other than \<open>-1\<close> strokes an outline
  and leaves the interior alone. The source calls \<open>cv2.fillPoly\<close> before the four
  arcs whatever the thickness is: with thickness 2 the octagon between the
  corners is filled all the same, and only the arcs are stroked.
\<close>

theorem draw_rounded_rectangle_outline_still_filled:
  "new_calls overlay0 (draw_rounded_rectangle overlay0 (0, 0) (100, 100) 10 (0, 0, 255) 2) =
     [ FillPoly [(10, 0), (90, 0), (100, 10), (100, 90), (90, 100), (10, 100), (0, 90), (0, 10)] (0, 0, 255),
       Ellipse (10, 10) (10, 10) 180 0 90 (0, 0, 255) 2,
       Ellipse (90, 10) (10, 10) 270 0 90 (0, 0, 255) 2,
       Ellipse (90, 90) (10, 10) 0 0 90 (0, 0, 255) 2,
       Ellipse (10, 90) (10, 10) 90 0 90 (0, 0, 255) 2 ]"
  by (simp add: new_calls_def draw_rounded_rectangle_def emit_fields draw_rounded_rectangle_calls_def)

text \<open>The first call of \<open>draw_rounded_rectangle\<close> is a fill for every thickness.\<close>

lemma draw_rounded_rectangle_fills_always:
  "is_fill (hd (draw_rounded_rectangle_calls sp ep r col k))"
  by (simp add: draw_rounded_rectangle_calls_def)

text \<open>
  Claim C5. \<open>draw_bbox\<close> with requested thickness \<open>t\<close> adds eight calls to the
  buffer, four lines and four arcs, and the thickness argument of each of them
  is \<open>t + 1\<close>.
\<close>

theorem draw_bbox_stroke_width:
  "new_calls self (draw_bbox self b color t) = draw_bbox_calls self b color t \<and>
   length (draw_bbox_calls self b color t) = 8 \<and>
   (\<forall>c \<in> set (draw_bbox_calls self b color t). stroke_width c = Some (t + 1))"
  by (cases b) (simp add: new_calls_def draw_bbox_def emit_fields draw_bbox_calls_def Let_def)

theorem draw_bbox_stroke_width_witness:
  "map stroke_width (new_calls overlay0 (draw_bbox overlay0 (50, 50, 60, 40) (0, 255, 0) 2))
     = replicate 8 (Some 3)"
  using draw_bbox_stroke_width [of overlay0 "(50, 50, 60, 40)" "(0, 255, 0)" 2]
  by (simp add: draw_bbox_calls_def Let_def overlay0_def numeral_eq_Suc)

subsection \<open>The size of the text block\<close>

lemma foldl_max_Max: "foldl max (x::int) xs = Max (set (x # xs))"
proof (induction xs arbitrary: x)
  case Nil
  show ?case by simp
next
  case (Cons y ys)
  have "foldl max x (y # ys) = Max (set (max x y # ys))"
    using Cons.IH [of "max x y"] by simp
  also have "\<dots> = Max (set (x # y # ys))"
    by (cases ys) (simp_all add: max.assoc)
  finally show ?case .
qed

lemma py_max_Max: "xs \<noteq> [] \<Longrightarrow> py_max xs = Inr (Max (set xs))"
  by (cases xs) (simp_all add: py_max_def foldl_max_Max del: set_simps)

lemma foldl_plus_acc: "foldl (+) (a::int) xs = a + sum_list xs"
  by (induction xs arbitrary: a) simp_all

lemma py_sum_sum_list: "py_sum xs = sum_list xs"
  by (simp add: py_sum_def foldl_plus_acc)

text \<open>
  Claim C4. For a non-empty list of lines, \<open>max_text_width\<close> is the largest
  measured width plus twice the background padding, and \<open>total_text_height\<close> is
  the sum of the measured heights plus the line padding once between each two
  lines plus twice the background padding.
\<close>

theorem text_block_dimensions:
  assumes "texts \<noteq> []"
  shows "max_text_width self (text_sizes getTextSize self texts)
           = Inr (Max (fst ` set (text_sizes getTextSize self texts)) + 2 * bg_padding self) \<and>
         total_text_height self texts (text_sizes getTextSize self texts)
           = (\<Sum>sz \<leftarrow> text_sizes getTextSize self texts. snd sz)
             + (int (length texts) - 1) * padding self + 2 * bg_padding self"
proof -
  have "map fst (text_sizes getTextSize self texts) \<noteq> []"
    using assms by (simp add: text_sizes_def)
  then have "py_max (map fst (text_sizes getTextSize self texts))
               = Inr (Max (fst ` set (text_sizes getTextSize self texts)))"
    using py_max_Max [of "map fst (text_sizes getTextSize self texts)"] by simp
  then show ?thesis
    by (simp add: max_text_width_def total_text_height_def py_sum_sum_list)
qed

theorem text_block_dimensions_witness:
  "max_text_width overlay0 (text_sizes even_measure overlay0 [''A'', ''BCD'']) = Inr 82 \<and>
   total_text_height overlay0 [''A'', ''BCD''] (text_sizes even_measure overlay0 [''A'', ''BCD'']) = 84"
  using text_block_dimensions [of "[''A'', ''BCD'']" overlay0 even_measure]
  by (simp add: text_sizes_def even_measure_def overlay0_def)

text \<open>
  Claim C7. With no lines of text, \<open>put_text\<close> raises and returns nothing:
  \<open>max\<close> of the empty collection of widths is a \<open>ValueError\<close>. That is the error
  of \<open>put_text\<close> whenever a bounding box is given or the image has three
  dimensions (without a box, an image of another dimension already fails at the
  unpack of its shape). A bounding box given is drawn before the failure.
\<close>

theorem put_text_empty_fails:
  "max_text_width s (text_sizes getTextSize s []) = Inl ValueError_max_empty \<and>
   isl (put_text getTextSize self [] bbox_arg position bbox_color) \<and>
   (bbox_arg \<noteq> None \<or> length (shape (image_buf self)) = 3 \<longrightarrow>
      put_text getTextSize self [] bbox_arg position bbox_color
        = Inl (ValueError_max_empty,
               case bbox_arg of Some b \<Rightarrow> draw_bbox self b bbox_color (thickness self) | None \<Rightarrow> self))"
proof -
  have m: "\<And>s. max_text_width s (text_sizes getTextSize s []) = Inl ValueError_max_empty"
    by (simp add: max_text_width_def text_sizes_def py_max_def)
  have a: "isl (put_text getTextSize self [] bbox_arg position bbox_color)"
    by (simp add: put_text_def m split: option.splits sum.splits prod.splits)
  have b: "put_text getTextSize self [] bbox_arg position bbox_color
        = Inl (ValueError_max_empty,
               case bbox_arg of Some b \<Rightarrow> draw_bbox self b bbox_color (thickness self) | None \<Rightarrow> self)"
    if "bbox_arg \<noteq> None \<or> length (shape (image_buf self)) = 3"
  proof (cases bbox_arg)
    case (Some b)
    then show ?thesis by (simp add: put_text_def m)
  next
    case None
    with that have "length (shape (image_buf self)) = 3" by simp
    then obtain h w c where "shape (image_buf self) = [h, w, c]"
      by (auto simp: length_Suc_conv numeral_3_eq_3)
    with None show ?thesis by (simp add: put_text_def m unpack3_def)
  qed
  from m a b show ?thesis by blast
qed

theorem put_text_empty_fails_witness:
  "put_text even_measure overlay0 [] None ''inside_top_left'' (0, 255, 0)
     = Inl (ValueError_max_empty, overlay0)"
  using put_text_empty_fails [of overlay0 even_measure overlay0 None "''inside_top_left''" "(0, 255, 0)"]
  by (simp add: overlay0_def blank_def)

subsection \<open>Placement of the text block\<close>

lemma text_sizes_emit: "text_sizes g (emit cs s) texts = text_sizes g s texts"
  by (simp add: text_sizes_def emit_fields)

lemma max_text_width_emit: "max_text_width (emit cs s) sizes = max_text_width s sizes"
  by (simp add: max_text_width_def emit_fields split: sum.splits)

lemma total_text_height_emit: "total_text_height (emit cs s) texts sizes = total_text_height s texts sizes"
  by (simp add: total_text_height_def emit_fields)

lemma positions_emit: "positions (emit cs s) b mw th = positions s b mw th"
  by (cases b) (simp add: positions_def emit_fields)

lemma text_origin_emit: "text_origin (emit cs s) tbl position mw th h w = text_origin s tbl position mw th h w"
  by (simp add: text_origin_def emit_fields Let_def)

lemma put_text_unfold:
  assumes shp: "shape (image_buf self) = [h, w, c]"
    and mw: "max_text_width self (text_sizes g self texts) = Inr mw"
  shows "put_text g self texts bbox_arg position col =
     Inr (draw_block
            (case bbox_arg of Some b \<Rightarrow> draw_bbox self b col (thickness self) | None \<Rightarrow> self)
            texts (text_sizes g self texts) mw
            (total_text_height self texts (text_sizes g self texts))
            (snd (text_origin self
                    (positions self (case bbox_arg of Some b \<Rightarrow> b | None \<Rightarrow> (0, 0, int w, int h)) mw
                       (total_text_height self texts (text_sizes g self texts)))
                    position mw (total_text_height self texts (text_sizes g self texts)) (int h) (int w))))"
proof (cases bbox_arg)
  case None
  then show ?thesis using shp mw by (simp add: put_text_def unpack3_def Let_def)
next
  case (Some b)
  then show ?thesis using shp mw
    by (simp add: put_text_def unpack3_def Let_def draw_bbox_def text_sizes_emit
        max_text_width_emit total_text_height_emit positions_emit text_origin_emit emit_fields)
qed

lemma positions_keys: "map fst (positions self b mw th) = anchor_names"
  by (cases b) (simp add: positions_def anchor_names_def)

lemma dict_get_default:
  "k \<notin> set (map fst d) \<Longrightarrow> dict_get d k dflt = dflt"
  by (simp add: dict_get_def map_of_eq_None_iff [THEN iffD2])

lemma replace_scan_same_or_new:
  "old \<noteq> [] \<Longrightarrow> replace_scan old new s = s \<or> sublist new (replace_scan old new s)"
proof (induction old new s rule: replace_scan.induct)
  case (1 old new)
  show ?case by simp
next
  case (2 old new c cs)
  show ?case
  proof (cases "prefix old (c # cs)")
    case True
    with "2.prems" show ?thesis by (simp add: sublist_append)
  next
    case False
    with 2 show ?thesis by (auto simp: sublist_Cons_right)
  qed
qed

lemma replace_outside_prefix:
  "prefix ''outside'' s \<Longrightarrow>
     str_replace s ''outside'' ''inside'' = ''inside'' @ replace_scan ''outside'' ''inside'' (drop 7 s)"
proof -
  assume "prefix ''outside'' s"
  then obtain r where s: "s = ''outside'' @ r" by (auto simp: prefix_def)
  show ?thesis unfolding s by (simp add: str_replace_def)
qed

lemma suffix_no_inside:
  "\<not> sublist ''inside'' ''_top_left''" "\<not> sublist ''inside'' ''_top_center''"
  "\<not> sublist ''inside'' ''_top_right''" "\<not> sublist ''inside'' ''_bottom_left''"
  "\<not> sublist ''inside'' ''_bottom_center''" "\<not> sublist ''inside'' ''_bottom_right''"
  by (simp_all add: sublist_Cons_right)

lemma replaced_not_anchor:
  assumes out: "prefix ''outside'' position" and na: "position \<notin> set anchor_names"
  shows "str_replace position ''outside'' ''inside'' \<notin> set anchor_names"
proof
  let ?rest = "drop 7 position"
  let ?r = "replace_scan ''outside'' ''inside'' ?rest"
  assume "str_replace position ''outside'' ''inside'' \<in> set anchor_names"
  then have mem: "''inside'' @ ?r \<in> set anchor_names"
    using out by (simp add: replace_outside_prefix)
  have pos: "position = ''outside'' @ ?rest"
    using out by (auto simp: prefix_def)
  from mem have r: "?r \<in> {''_top_left'', ''_top_center'', ''_top_right'',
                  ''_bottom_left'', ''_bottom_center'', ''_bottom_right''}"
    by (simp add: anchor_names_def)
  have "?r = ?rest \<or> sublist ''inside'' ?r"
    by (rule replace_scan_same_or_new) simp
  with r suffix_no_inside have "?r = ?rest" by auto
  with r have "''outside'' @ ?rest \<in> set anchor_names"
    by (auto simp: anchor_names_def)
  with pos na show False by simp
qed

lemma text_origin_unknown:
  assumes "position \<notin> set anchor_names"
  shows "snd (text_origin self (positions self b mw th) position mw th h w) = (margin self, margin self)"
proof -
  have d: "dict_get (positions self b mw th) position (margin self, margin self) = (margin self, margin self)"
    using assms by (simp add: dict_get_default positions_keys)
  show ?thesis
  proof (cases "startswith position ''outside''")
    case False
    then show ?thesis by (simp add: text_origin_def d)
  next
    case True
    then have "str_replace position ''outside'' ''inside'' \<notin> set anchor_names"
      using assms by (simp add: startswith_def replaced_not_anchor)
    then have "dict_get (positions self b mw th) (str_replace position ''outside'' ''inside'')
                 (margin self, margin self) = (margin self, margin self)"
      by (simp add: dict_get_default positions_keys)
    then show ?thesis by (simp add: text_origin_def d Let_def)
  qed
qed


lemma max_text_width_defined:
  assumes "texts \<noteq> []"
  shows "max_text_width self (text_sizes g self texts)
           = Inr (Max (fst ` set (text_sizes g self texts)) + 2 * bg_padding self)"
proof -
  have "map fst (text_sizes g self texts) \<noteq> []"
    using assms by (simp add: text_sizes_def)
  then have "py_max (map fst (text_sizes g self texts))
               = Inr (Max (fst ` set (text_sizes g self texts)))"
    using py_max_Max [of "map fst (text_sizes g self texts)"] by simp
  then show ?thesis by (simp add: max_text_width_def)
qed

lemma max_text_width_nonempty:
  "max_text_width self (text_sizes g self texts) = Inr mw \<Longrightarrow> texts \<noteq> []"
  by (auto simp: max_text_width_def text_sizes_def py_max_def)

text \<open>
  Claim C8. A position string that is none of the fourteen anchor names puts
  the top-left of the text block at \<open>(margin, margin)\<close>: the lookup falls back to
  the default, and for a name that starts with \<open>outside\<close> the switched name is no
  anchor either, so the second lookup gives the default again.
\<close>

theorem put_text_unknown_position:
  assumes na: "position \<notin> set anchor_names"
    and shp: "shape (image_buf self) = [h, w, c]"
    and ne: "texts \<noteq> []"
  shows "\<exists>mw. max_text_width self (text_sizes g self texts) = Inr mw \<and>
            put_text g self texts bbox_arg position col =
              Inr (draw_block
                     (case bbox_arg of Some b \<Rightarrow> draw_bbox self b col (thickness self) | None \<Rightarrow> self)
                     texts (text_sizes g self texts) mw
                     (total_text_height self texts (text_sizes g self texts))
                     (margin self, margin self))"
proof -
  obtain mw where mw: "max_text_width self (text_sizes g self texts) = Inr mw"
    using max_text_width_defined [OF ne] by blast
  show ?thesis
    using put_text_unfold [OF shp mw] mw text_origin_unknown [OF na] by simp
qed

theorem put_text_unknown_position_witness:
  "put_text even_measure overlay0 [''hi''] (Some (50, 50, 60, 40)) ''middle'' (0, 255, 0) =
     Inr (draw_block (draw_bbox overlay0 (50, 50, 60, 40) (0, 255, 0) 2)
            [''hi''] [(42, 22)] 62 42 (20, 20))"
proof -
  have na: "''middle'' \<notin> set anchor_names" by (simp add: anchor_names_def)
  have shp: "shape (image_buf overlay0) = [200, 200, 3]" by (simp add: overlay0_def blank_def)
  have ne: "[''hi''] \<noteq> []" by simp
  have sz: "text_sizes even_measure overlay0 [''hi''] = [(42, 22)]"
    by (simp add: text_sizes_def even_measure_def overlay0_def)
  show ?thesis
    using put_text_unknown_position [OF na shp ne, of even_measure "Some (50, 50, 60, 40)" "(0, 255, 0)"]
    by (simp add: sz max_text_width_def py_max_def total_text_height_def py_sum_def)
       (simp add: overlay0_def)
qed

lemma text_origin_inside:
  "\<not> startswith position ''outside'' \<Longrightarrow>
     text_origin self tbl position mw th h w = (position, dict_get tbl position (margin self, margin self))"
  by (simp add: text_origin_def)

lemma replaced_not_outside:
  "startswith position ''outside'' \<Longrightarrow> \<not> startswith (str_replace position ''outside'' ''inside'') ''outside''"
  by (simp add: startswith_def replace_outside_prefix)

lemma text_origin_switch:
  assumes out: "startswith position ''outside''"
    and xy: "dict_get tbl position (margin self, margin self) = (x, y)"
    and nofit: "x < 0 \<or> x + mw > w \<or> y < 0 \<or> y + th > h"
  shows "text_origin self tbl position mw th h w =
           (str_replace position ''outside'' ''inside'',
            dict_get tbl (str_replace position ''outside'' ''inside'') (margin self, margin self))"
  using assms by (simp add: text_origin_def Let_def)

lemma text_origin_keep:
  assumes xy: "dict_get tbl position (margin self, margin self) = (x, y)"
    and fit: "\<not> (x < 0 \<or> x + mw > w \<or> y < 0 \<or> y + th > h)"
  shows "text_origin self tbl position mw th h w = (position, (x, y))"
  using assms by (simp add: text_origin_def Let_def)

lemma total_text_height_nonneg:
  assumes "texts \<noteq> []" "0 \<le> padding self" "0 \<le> bg_padding self"
    and "\<forall>t \<in> set texts. 0 \<le> snd (g t (font self) (font_scale self) (thickness self))"
  shows "0 \<le> total_text_height self texts (text_sizes g self texts)"
proof -
  have "0 \<le> sum_list (map snd (text_sizes g self texts))"
    using assms(4) by (intro sum_list_nonneg) (auto simp: text_sizes_def)
  moreover have "0 \<le> (int (length texts) - 1) * padding self"
    using assms(1,2) by (cases texts) simp_all
  ultimately show ?thesis
    using assms(3) by (simp add: total_text_height_def py_sum_sum_list)
qed

lemma top_flush_origin:
  assumes m: "0 \<le> margin self" and th: "0 \<le> th"
  shows "snd (text_origin self (positions self (bx, 0, bw, bh) mw th) ''outside_top_left'' mw th h w)
       = snd (text_origin self (positions self (bx, 0, bw, bh) mw th) ''inside_top_left'' mw th h w)"
proof -
  let ?tbl = "positions self (bx, 0, bw, bh) mw th"
  have o: "dict_get ?tbl ''outside_top_left'' (margin self, margin self) = (bx + margin self, 0 - th - margin self)"
    by (simp add: dict_get_def positions_def)
  have i: "dict_get ?tbl ''inside_top_left'' (margin self, margin self) = (bx + margin self, 0 + margin self)"
    by (simp add: dict_get_def positions_def)
  have r: "str_replace ''outside_top_left'' ''outside'' ''inside'' = ''inside_top_left''"
    by (simp add: str_replace_def)
  have ins: "text_origin self ?tbl ''inside_top_left'' mw th h w = (''inside_top_left'', (bx + margin self, 0 + margin self))"
    using i by (simp add: text_origin_inside startswith_def)
  show ?thesis
  proof (cases "bx + margin self < 0 \<or> bx + margin self + mw > w \<or> 0 - th - margin self < 0 \<or> 0 - th - margin self + th > h")
    case True
    have "text_origin self ?tbl ''outside_top_left'' mw th h w =
           (str_replace ''outside_top_left'' ''outside'' ''inside'',
            dict_get ?tbl (str_replace ''outside_top_left'' ''outside'' ''inside'') (margin self, margin self))"
      by (rule text_origin_switch [OF _ o True]) (simp add: startswith_def)
    then show ?thesis by (simp only: r i ins)
  next
    case False
    then have "text_origin self ?tbl ''outside_top_left'' mw th h w = (''outside_top_left'', (bx + margin self, 0 - th - margin self))"
      by (rule text_origin_keep [OF o])
    moreover from False m th have "th = 0" "margin self = 0" by auto
    ultimately show ?thesis using ins by simp
  qed
qed

text \<open>
  The switch of lines 152 to 156: when the name starts with \<open>outside\<close> and the
  block at the looked-up \<open>(x, y)\<close> leaves the image, \<open>put_text\<close> does what it does
  for the name with \<open>outside\<close> replaced by \<open>inside\<close>, once, whether or not that
  block fits. For a bounding box whose top is the top of the image,
  \<open>outside_top_left\<close> and \<open>inside_top_left\<close> give the same result (margin,
  paddings and measured heights not negative).
\<close>

lemma edge_fit_switch:
  assumes shp: "shape (image_buf self) = [h, w, c]"
    and mw: "max_text_width self (text_sizes g self texts) = Inr mw"
    and th: "th = total_text_height self texts (text_sizes g self texts)"
    and tbl: "tbl = positions self (case bbox_arg of Some b \<Rightarrow> b | None \<Rightarrow> (0, 0, int w, int h)) mw th"
  shows "(startswith position ''outside'' \<and>
          dict_get tbl position (margin self, margin self) = (x, y) \<and>
          (x < 0 \<or> x + mw > int w \<or> y < 0 \<or> y + th > int h) \<longrightarrow>
            text_origin self tbl position mw th (int h) (int w) =
              (str_replace position ''outside'' ''inside'',
               dict_get tbl (str_replace position ''outside'' ''inside'') (margin self, margin self)) \<and>
            put_text g self texts bbox_arg position col =
              put_text g self texts bbox_arg (str_replace position ''outside'' ''inside'') col) \<and>
         (0 \<le> margin self \<and> 0 \<le> padding self \<and> 0 \<le> bg_padding self \<and>
          (\<forall>t \<in> set texts. 0 \<le> snd (g t (font self) (font_scale self) (thickness self))) \<longrightarrow>
            put_text g self texts (Some (bx, 0, bw, bh)) ''outside_top_left'' col =
              put_text g self texts (Some (bx, 0, bw, bh)) ''inside_top_left'' col)"
proof -
  let ?ins = "str_replace position ''outside'' ''inside''"
  have switch: "text_origin self tbl position mw th (int h) (int w) =
              (?ins, dict_get tbl ?ins (margin self, margin self)) \<and>
            put_text g self texts bbox_arg position col = put_text g self texts bbox_arg ?ins col"
    if pre: "startswith position ''outside'' \<and>
          dict_get tbl position (margin self, margin self) = (x, y) \<and>
          (x < 0 \<or> x + mw > int w \<or> y < 0 \<or> y + th > int h)"
  proof -
    from pre have out: "startswith position ''outside''"
      and xy: "dict_get tbl position (margin self, margin self) = (x, y)"
      and nofit: "x < 0 \<or> x + mw > int w \<or> y < 0 \<or> y + th > int h" by simp_all
    have sw: "text_origin self tbl position mw th (int h) (int w) =
              (?ins, dict_get tbl ?ins (margin self, margin self))"
      by (rule text_origin_switch [OF out xy nofit])
    have "text_origin self tbl ?ins mw th (int h) (int w) = (?ins, dict_get tbl ?ins (margin self, margin self))"
      by (rule text_origin_inside [OF replaced_not_outside [OF out]])
    with sw have same: "snd (text_origin self tbl position mw th (int h) (int w))
                    = snd (text_origin self tbl ?ins mw th (int h) (int w))"
      by simp
    have "put_text g self texts bbox_arg position col = put_text g self texts bbox_arg ?ins col"
      using same unfolding put_text_unfold [OF shp mw] tbl th by simp
    with sw show ?thesis by simp
  qed
  have flush: "put_text g self texts (Some (bx, 0, bw, bh)) ''outside_top_left'' col =
            put_text g self texts (Some (bx, 0, bw, bh)) ''inside_top_left'' col"
    if nn: "0 \<le> margin self \<and> 0 \<le> padding self \<and> 0 \<le> bg_padding self \<and>
          (\<forall>t \<in> set texts. 0 \<le> snd (g t (font self) (font_scale self) (thickness self)))"
  proof -
    have "0 \<le> total_text_height self texts (text_sizes g self texts)"
      using nn max_text_width_nonempty [OF mw] by (intro total_text_height_nonneg) simp_all
    then show ?thesis
      using nn top_flush_origin [of self "total_text_height self texts (text_sizes g self texts)" bx bw bh mw "int h" "int w"]
      unfolding put_text_unfold [OF shp mw] by simp
  qed
  from switch flush show ?thesis by blast
qed

lemma sizes_hi: "text_sizes even_measure overlay0 [''hi''] = [(42, 22)]"
  by (simp add: text_sizes_def even_measure_def overlay0_fields)

lemma mw_hi: "max_text_width overlay0 (text_sizes even_measure overlay0 [''hi'']) = Inr 62"
  by (simp add: sizes_hi max_text_width_def py_max_def overlay0_fields)

lemma th_hi: "total_text_height overlay0 [''hi''] (text_sizes even_measure overlay0 [''hi'']) = 42"
  by (simp add: sizes_hi total_text_height_def py_sum_def overlay0_fields)

lemma edge_fit_switch_example:
  "text_origin overlay0 (positions overlay0 (50, 50, 60, 40) 62 42) ''outside_top_left'' 62 42 200 200
     = (''inside_top_left'', (70, 70)) \<and>
   put_text even_measure overlay0 [''hi''] (Some (50, 50, 60, 40)) ''outside_top_left'' (0, 255, 0) =
     put_text even_measure overlay0 [''hi''] (Some (50, 50, 60, 40)) ''inside_top_left'' (0, 255, 0) \<and>
   put_text even_measure overlay0 [''hi''] (Some (50, 0, 60, 40)) ''outside_top_left'' (0, 255, 0) =
     put_text even_measure overlay0 [''hi''] (Some (50, 0, 60, 40)) ''inside_top_left'' (0, 255, 0)"
proof -
  have tbl: "positions overlay0 (50, 50, 60, 40) 62 42 =
      positions overlay0 (case Some (50, 50, 60, 40) of Some b \<Rightarrow> b | None \<Rightarrow> (0, 0, int 200, int 200)) 62 42"
    by simp
  have r: "str_replace ''outside_top_left'' ''outside'' ''inside'' = ''inside_top_left''"
    by (simp add: str_replace_def)
  have d: "dict_get (positions overlay0 (50, 50, 60, 40) 62 42) ''outside_top_left''
             (margin overlay0, margin overlay0) = (70, - 12)"
    by (simp add: dict_get_def positions_def overlay0_fields)
  have d': "dict_get (positions overlay0 (50, 50, 60, 40) 62 42) ''inside_top_left''
             (margin overlay0, margin overlay0) = (70, 70)"
    by (simp add: dict_get_def positions_def overlay0_fields)
  have nn: "0 \<le> margin overlay0 \<and> 0 \<le> padding overlay0 \<and> 0 \<le> bg_padding overlay0 \<and>
      (\<forall>t \<in> set [''hi'']. 0 \<le> snd (even_measure t (font overlay0) (font_scale overlay0) (thickness overlay0)))"
    by (simp add: overlay0_fields even_measure_def)
  show ?thesis
    using edge_fit_switch [OF shape_overlay0 mw_hi th_hi [symmetric] tbl,
        of "''outside_top_left''" 70 "- 12" "(0, 255, 0)" 50 60 40] nn
    by (simp add: startswith_def d d' r)
qed

lemma unpack3_Inr: "unpack3 s = Inr v \<Longrightarrow> \<exists>h w c. s = [h, w, c]"
  by (auto simp: unpack3_def split: list.splits)

lemma put_text_Inr_pre:
  assumes "put_text g self texts bbox_arg position col = Inr self'"
  shows "\<exists>h w c mw. shape (image_buf self) = [h, w, c] \<and>
           max_text_width self (text_sizes g self texts) = Inr mw"
proof (cases bbox_arg)
  case None
  with assms show ?thesis
    by (auto simp: put_text_def Let_def split: sum.splits dest: unpack3_Inr)
next
  case (Some b)
  with assms show ?thesis
    by (auto simp: put_text_def Let_def draw_bbox_def emit_fields text_sizes_emit max_text_width_emit
        split: sum.splits dest!: unpack3_Inr)
qed

lemma text_calls_emit: "text_calls (emit cs s) texts sizes xy = text_calls s texts sizes xy"
  by (simp add: text_calls_def put_line_def text_base_y_def emit_fields cong: map_cong)

lemma filter_text_calls: "filter is_put_text (text_calls s texts sizes xy) = text_calls s texts sizes xy"
  by (auto simp: text_calls_def put_line_def filter_id_conv)

lemma draw_block_new_calls:
  "drawn (image_buf (draw_block s texts sizes mw th xy)) =
     drawn (image_buf s)
       @ draw_rounded_rectangle_calls (fst xy - bg_padding s, snd xy - bg_padding s)
           (fst xy + mw, snd xy + th) (corner_radius s) (background_color s) (- 1)
       @ text_calls s texts sizes xy"
  by (simp add: draw_block_def draw_rounded_rectangle_def emit_fields text_calls_emit)

lemma line_calls_put_text:
  assumes ok: "put_text g self texts bbox_arg position col = Inr self'"
  shows "\<exists>xy. line_calls self self' = text_calls self texts (text_sizes g self texts) xy"
proof -
  from put_text_Inr_pre [OF ok] obtain h w c mw
    where shp: "shape (image_buf self) = [h, w, c]"
      and mw: "max_text_width self (text_sizes g self texts) = Inr mw" by blast
  define xy where "xy = snd (text_origin self
                    (positions self (case bbox_arg of Some b \<Rightarrow> b | None \<Rightarrow> (0, 0, int w, int h)) mw
                       (total_text_height self texts (text_sizes g self texts)))
                    position mw (total_text_height self texts (text_sizes g self texts)) (int h) (int w))"
  from ok have self': "self' = draw_block
            (case bbox_arg of Some b \<Rightarrow> draw_bbox self b col (thickness self) | None \<Rightarrow> self)
            texts (text_sizes g self texts) mw
            (total_text_height self texts (text_sizes g self texts)) xy"
    unfolding put_text_unfold [OF shp mw] xy_def by simp
  have "line_calls self self' = text_calls self texts (text_sizes g self texts) xy"
  proof (cases bbox_arg)
    case None
    then show ?thesis
      by (simp add: self' line_calls_def new_calls_def draw_block_new_calls
          draw_rounded_rectangle_calls_def filter_text_calls)
  next
    case (Some b)
    obtain b0 b1 b2 b3 where b: "b = (b0, b1, b2, b3)" by (cases b) auto
    from Some show ?thesis
      by (simp add: self' line_calls_def new_calls_def draw_block_new_calls draw_bbox_def emit_fields
          text_calls_emit draw_rounded_rectangle_calls_def draw_bbox_calls_def b Let_def filter_text_calls)
  qed
  then show ?thesis by blast
qed

lemma text_calls_nth:
  assumes "i < length texts" "length sizes = length texts"
  shows "text_calls s texts sizes xy ! i = put_line s xy (i, texts ! i, sizes ! i)"
  using assms by (simp add: text_calls_def nth_enumerate_eq)

lemma py_int_of_int: "py_int (of_int z) = z"
  by (simp add: py_int_def)

lemma text_base_y_even:
  assumes "even (bg_padding s)"
  shows "text_base_y s y i sz = y + bg_padding s div 2 + int i * (snd sz + padding s) + snd sz"
proof -
  from assms obtain m where m: "bg_padding s = 2 * m" by (auto elim: evenE)
  have "(of_int y :: rat) + (of_int (2 * m) - (1 / 2) * of_int (2 * m))
          + of_int (int i * (snd sz + padding s)) + of_int (snd sz)
        = of_int (y + m + int i * (snd sz + padding s) + snd sz)"
    by simp
  then show ?thesis
    unfolding text_base_y_def Let_def m by (simp only: py_int_of_int mult_2 [symmetric] nonzero_mult_div_cancel_left)
qed

lemma put_text_even_AB:
  "put_text even_measure overlay0 [''A'', ''B''] None ''inside_top_left'' (0, 255, 0) =
     Inr (draw_block overlay0 [''A'', ''B''] [(22, 22), (22, 22)] 42 84 (20, 20))"
proof -
  have sz: "text_sizes even_measure overlay0 [''A'', ''B''] = [(22, 22), (22, 22)]"
    by (simp add: text_sizes_def even_measure_def overlay0_fields)
  have mw: "max_text_width overlay0 (text_sizes even_measure overlay0 [''A'', ''B'']) = Inr 42"
    by (simp add: sz max_text_width_def py_max_def overlay0_fields)
  have th: "total_text_height overlay0 [''A'', ''B''] [(22, 22), (22, 22)] = 84"
    by (simp add: total_text_height_def py_sum_def overlay0_fields)
  show ?thesis
    unfolding put_text_unfold [OF overlay0_fields(12) [folded overlay0_fields(1)] mw] sz th
    by (simp add: text_origin_def startswith_def dict_get_def positions_def overlay0_fields)
qed

text \<open>The names the switch produces: six of the eight outside anchors have an
  inside anchor of the same name in the table, \<open>outside_left\<close> and
  \<open>outside_right\<close> have none.\<close>

lemma inside_counterparts:
  "str_replace ''outside_top_left'' ''outside'' ''inside'' = ''inside_top_left''"
  "str_replace ''outside_top_center'' ''outside'' ''inside'' = ''inside_top_center''"
  "str_replace ''outside_top_right'' ''outside'' ''inside'' = ''inside_top_right''"
  "str_replace ''outside_bottom_left'' ''outside'' ''inside'' = ''inside_bottom_left''"
  "str_replace ''outside_bottom_center'' ''outside'' ''inside'' = ''inside_bottom_center''"
  "str_replace ''outside_bottom_right'' ''outside'' ''inside'' = ''inside_bottom_right''"
  "str_replace ''outside_left'' ''outside'' ''inside'' = ''inside_left''"
  "str_replace ''outside_right'' ''outside'' ''inside'' = ''inside_right''"
  by (simp_all add: str_replace_def)

lemma no_inside_left_right:
  "''inside_left'' \<notin> set anchor_names" "''inside_right'' \<notin> set anchor_names"
  by (simp_all add: anchor_names_def)

text \<open>
  Claim C1. The claim has the switch land on the corresponding inside anchor of
  the table, and the source's comment calls it the switch to the inside
  equivalent. For \<open>outside_left\<close> and \<open>outside_right\<close> the table has no such
  anchor: the replaced name is no key, and the second lookup returns the
  default \<open>(margin, margin)\<close>, a place in the image's corner that does not depend
  on the bounding box. On the 200 by 200 image, with the box
  \<open>(100, 100, 60, 40)\<close> and the one line \<open>hi\<close>, \<open>outside_right\<close> is looked up at
  \<open>(180, 99)\<close>, does not fit (\<open>180 + 62 > 200\<close>), and the block is drawn at
  \<open>(20, 20)\<close>.
\<close>

theorem edge_fit_outside_right_default:
  "dict_get (positions overlay0 (100, 100, 60, 40) 62 42) ''outside_right''
      (margin overlay0, margin overlay0) = (180, 99) \<and>
   str_replace ''outside_right'' ''outside'' ''inside'' = ''inside_right'' \<and>
   map_of (positions overlay0 (100, 100, 60, 40) 62 42) ''inside_right'' = None \<and>
   text_origin overlay0 (positions overlay0 (100, 100, 60, 40) 62 42) ''outside_right'' 62 42 200 200
     = (''inside_right'', (20, 20)) \<and>
   put_text even_measure overlay0 [''hi''] (Some (100, 100, 60, 40)) ''outside_right'' (0, 255, 0) =
     Inr (draw_block (draw_bbox overlay0 (100, 100, 60, 40) (0, 255, 0) 2)
            [''hi''] [(42, 22)] 62 42 (20, 20))"
proof -
  let ?tbl = "positions overlay0 (100, 100, 60, 40) 62 42"
  have d: "dict_get ?tbl ''outside_right'' (margin overlay0, margin overlay0) = (180, 99)"
    by (simp add: dict_get_def positions_def overlay0_fields)
  have r: "str_replace ''outside_right'' ''outside'' ''inside'' = ''inside_right''"
    by (rule inside_counterparts)
  have m: "map_of ?tbl ''inside_right'' = None"
    by (simp add: positions_def)
  have o: "text_origin overlay0 ?tbl ''outside_right'' 62 42 200 200 = (''inside_right'', (20, 20))"
    by (simp add: text_origin_def startswith_def d r Let_def)
       (simp add: dict_get_def m overlay0_fields)
  have p: "put_text even_measure overlay0 [''hi''] (Some (100, 100, 60, 40)) ''outside_right'' (0, 255, 0) =
     Inr (draw_block (draw_bbox overlay0 (100, 100, 60, 40) (0, 255, 0) 2)
            [''hi''] [(42, 22)] 62 42 (20, 20))"
    unfolding put_text_unfold [OF shape_overlay0 mw_hi] th_hi
    using o by (simp add: sizes_hi overlay0_fields)
  from d r m o p show ?thesis by simp
qed

text \<open>No method changes the margin, the paddings or the corner radius: every
  object the class can produce has the values of the constructor.\<close>

lemma put_text_style:
  assumes "put_text g s texts bb pos col = Inr s' \<or> put_text g s texts bb pos col = Inl (e, s')"
  shows "margin s' = margin s \<and> padding s' = padding s \<and> bg_padding s' = bg_padding s \<and>
         corner_radius s' = corner_radius s"
  using assms
  by (auto simp: put_text_def Let_def draw_block_def draw_rounded_rectangle_def draw_bbox_def
      emit_fields split: option.splits sum.splits prod.splits)

lemma reachable_style:
  "reachable s \<Longrightarrow>
     margin s = 20 \<and> padding s = 20 \<and> bg_padding s = 10 \<and> corner_radius s = 10"
proof (induction rule: reachable.induct)
  case (constructed img s)
  then show ?case by (auto simp: TextOverlay_init_def split: pyobj.splits)
next
  case (configured s fs fc th bg)
  then show ?case by (simp add: set_text_properties_def)
next
  case (rectangle_drawn s p q r col k)
  then show ?case by (simp add: draw_rounded_rectangle_def emit_fields)
next
  case (bbox_drawn s b col k)
  then show ?case by (simp add: draw_bbox_def emit_fields)
next
  case (text_put s g texts bb pos col s')
  with put_text_style [of g s texts bb pos col s'] show ?case by simp
next
  case (text_raised s g texts bb pos col e s')
  with put_text_style [of g s texts bb pos col s' e] show ?case by simp
qed

lemma reachable_overlay0: "reachable overlay0"
  by (rule reachable.constructed [OF overlay0_constructed])

lemma height_by_style_even_measure: "height_by_style even_measure"
  by (simp add: height_by_style_def even_measure_def)

text \<open>
  Claim C3. In \<open>put_text\<close> with two or more lines, the baseline of each line
  after the first is the baseline of the line before it plus that line's
  measured height plus the line padding. The renderer is any object the class
  can produce, and the measurer takes the height from the font, the scale and
  the thickness, as \<open>cv2.getTextSize\<close> does: the source steps by
  \<open>i * (size[1] + padding)\<close> with the height of line \<open>i\<close> itself, which is then
  the height of every line.
\<close>

theorem baseline_step_previous_height:
  assumes re: "reachable self"
    and hg: "height_by_style g"
    and ok: "put_text g self texts bbox_arg position col = Inr self'"
    and i: "Suc i < length texts"
  shows "length (line_calls self self') = length texts \<and>
         baseline (line_calls self self' ! Suc i) - baseline (line_calls self self' ! i)
           = snd (g (texts ! i) (font self) (font_scale self) (thickness self)) + padding self"
proof -
  let ?sizes = "text_sizes g self texts"
  have ev: "even (bg_padding self)" using reachable_style [OF re] by simp
  from line_calls_put_text [OF ok] obtain xy
    where lc: "line_calls self self' = text_calls self texts ?sizes xy" by blast
  have len: "length ?sizes = length texts" by (simp add: text_sizes_def)
  have i0: "i < length texts" using i by simp
  have s0: "snd (?sizes ! i) = snd (g (texts ! i) (font self) (font_scale self) (thickness self))"
    using i0 by (simp add: text_sizes_def)
  have "snd (g (texts ! Suc i) (font self) (font_scale self) (thickness self))
          = snd (g (texts ! i) (font self) (font_scale self) (thickness self))"
    using hg unfolding height_by_style_def by blast
  then have s1: "snd (?sizes ! Suc i) = snd (g (texts ! i) (font self) (font_scale self) (thickness self))"
    using i by (simp add: text_sizes_def)
  have b0: "baseline (text_calls self texts ?sizes xy ! i) = text_base_y self (snd xy) i (?sizes ! i)"
    by (simp add: text_calls_nth [OF i0 len] put_line_def)
  have b1: "baseline (text_calls self texts ?sizes xy ! Suc i) = text_base_y self (snd xy) (Suc i) (?sizes ! Suc i)"
    by (simp add: text_calls_nth [OF i len] put_line_def)
  have "length (line_calls self self') = length texts"
    by (simp add: lc text_calls_def len)
  moreover have "baseline (line_calls self self' ! Suc i) - baseline (line_calls self self' ! i)
           = snd (g (texts ! i) (font self) (font_scale self) (thickness self)) + padding self"
    unfolding lc b0 b1 text_base_y_even [OF ev] s0 s1 by (simp add: algebra_simps)
  ultimately show ?thesis by simp
qed

theorem baseline_step_previous_height_witness:
  "\<exists>s'. put_text even_measure overlay0 [''A'', ''B''] None ''inside_top_left'' (0, 255, 0) = Inr s' \<and>
        map baseline (line_calls overlay0 s') = [47, 89] \<and>
        baseline (line_calls overlay0 s' ! 1) - baseline (line_calls overlay0 s' ! 0) = 22 + 20"
proof -
  let ?s = "draw_block overlay0 [''A'', ''B''] [(22, 22), (22, 22)] 42 84 (20, 20)"
  have lc: "line_calls overlay0 ?s = text_calls overlay0 [''A'', ''B''] [(22, 22), (22, 22)] (20, 20)"
    by (simp add: line_calls_def new_calls_def draw_block_new_calls
          draw_rounded_rectangle_calls_def filter_text_calls overlay0_fields)
  have bl: "map baseline (text_calls overlay0 [''A'', ''B''] [(22, 22), (22, 22)] (20, 20)) = [47, 89]"
    by (simp add: text_calls_def put_line_def text_base_y_def py_int_def overlay0_fields)
  have i: "Suc 0 < length [''A'', ''B'']" by simp
  have "baseline (line_calls overlay0 ?s ! Suc 0) - baseline (line_calls overlay0 ?s ! 0)
          = snd (even_measure ([''A'', ''B''] ! 0) (font overlay0) (font_scale overlay0) (thickness overlay0))
            + padding overlay0"
    using baseline_step_previous_height
      [OF reachable_overlay0 height_by_style_even_measure put_text_even_AB i]
    by simp
  then show ?thesis
    by (simp add: put_text_even_AB lc bl even_measure_def overlay0_fields)
qed

subsection \<open>The outline of a bounding box on the pixels\<close>

lemma render_Cons: "render paint (c # cs) r = render paint cs (paint c r)"
  by (simp add: render_def)

lemma render_untouched:
  assumes loc: "strokes_local paint"
    and far: "\<forall>c \<in> set cs. is_stroke c \<and> \<not> reach c pt"
  shows "render paint cs r pt = r pt"
  using far
proof (induction cs arbitrary: r)
  case Nil
  show ?case by (simp add: render_def)
next
  case (Cons c cs)
  have "render paint (c # cs) r pt = render paint cs (paint c r) pt"
    by (simp add: render_Cons)
  also have "\<dots> = paint c r pt" using Cons by simp
  also have "\<dots> = r pt"
    using loc Cons.prems unfolding strokes_local_def by (cases pt) auto
  finally show ?case .
qed

lemma draw_bbox_new_calls:
  "new_calls self (draw_bbox self b color t) = draw_bbox_calls self b color t"
  by (simp add: new_calls_def draw_bbox_def emit_fields)

lemma draw_bbox_calls_strokes:
  "0 \<le> t \<Longrightarrow> \<forall>c \<in> set (draw_bbox_calls self b color t). is_stroke c \<and> \<not> is_fill c"
  by (cases b) (simp add: draw_bbox_calls_def Let_def)

lemma reach_quarter:
  "reach (Ellipse c (r, r) 180 0 90 col k) pt = near_corner c (- 1, - 1) r k pt"
  "reach (Ellipse c (r, r) 270 0 90 col k) pt = near_corner c (1, - 1) r k pt"
  "reach (Ellipse c (r, r) 0 0 90 col k) pt = near_corner c (1, 1) r k pt"
  "reach (Ellipse c (r, r) 90 0 90 col k) pt = near_corner c (- 1, 1) r k pt"
  by (simp_all add: quarter_def)

lemma draw_bbox_calls_far:
  assumes p: "interior_away b (corner_radius self) (t + 1) pt"
  shows "\<forall>c \<in> set (draw_bbox_calls self b color t). \<not> reach c pt"
proof -
  obtain x y w h where b: "b = (x, y, w, h)" by (cases b) auto
  from p have edges: "x + (t + 1) < fst pt" "fst pt < x + w - (t + 1)"
      "y + (t + 1) < snd pt" "snd pt < y + h - (t + 1)"
    and corners:
      "\<not> near_corner (x + corner_radius self, y + corner_radius self) (- 1, - 1) (corner_radius self) (t + 1) pt"
      "\<not> near_corner (x + w - corner_radius self, y + corner_radius self) (1, - 1) (corner_radius self) (t + 1) pt"
      "\<not> near_corner (x + w - corner_radius self, y + h - corner_radius self) (1, 1) (corner_radius self) (t + 1) pt"
      "\<not> near_corner (x + corner_radius self, y + h - corner_radius self) (- 1, 1) (corner_radius self) (t + 1) pt"
    by (simp_all add: interior_away_def b)
  show ?thesis
    using edges corners
    by (simp add: draw_bbox_calls_def b Let_def reach_quarter del: reach.simps(2))
qed

lemma square_le_of_small:
  fixes d k :: int
  assumes "- k \<le> d" "d \<le> 0"
  shows "d * d \<le> k * k"
proof -
  have "(- d) * (- d) \<le> k * k"
    using assms by (intro mult_mono) simp_all
  then show ?thesis by simp
qed

lemma not_near_corner_behind:
  assumes dx: "fst sg * (fst pt - fst c) \<le> 0" and dy: "snd sg * (snd pt - snd c) \<le> 0"
    and kr: "k < r" and thin: "2 * (k * k) < (r - k) * (r - k)"
  shows "\<not> near_corner c sg r k pt"
proof
  let ?dx = "fst sg * (fst pt - fst c)"
  let ?dy = "snd sg * (snd pt - snd c)"
  assume "near_corner c sg r k pt"
  then have lo: "- k \<le> ?dx" "- k \<le> ?dy"
    and ring: "r \<le> k \<or> (r - k) * (r - k) \<le> ?dx * ?dx + ?dy * ?dy"
    by (simp_all add: near_corner_def Let_def)
  have "?dx * ?dx \<le> k * k" by (rule square_le_of_small [OF lo(1) dx])
  moreover have "?dy * ?dy \<le> k * k" by (rule square_le_of_small [OF lo(2) dy])
  ultimately have "?dx * ?dx + ?dy * ?dy \<le> 2 * (k * k)" by simp
  with ring kr thin show False by simp
qed

lemma centre_interior_away:
  fixes x y w h r k :: int
  assumes k: "0 < k" and kr: "k < r" and thin: "2 * (k * k) < (r - k) * (r - k)"
    and w: "2 * r < w" and h: "2 * r < h"
  shows "interior_away (x, y, w, h) r k (x + w div 2, y + h div 2)"
proof -
  have a: "r \<le> w div 2" "r + 1 \<le> w - w div 2" using w by linarith+
  have b: "r \<le> h div 2" "r + 1 \<le> h - h div 2" using h by linarith+
  have c1: "\<not> near_corner (x + r, y + r) (- 1, - 1) r k (x + w div 2, y + h div 2)"
    by (rule not_near_corner_behind [OF _ _ kr thin]) (use a b in simp_all)
  have c2: "\<not> near_corner (x + w - r, y + r) (1, - 1) r k (x + w div 2, y + h div 2)"
    by (rule not_near_corner_behind [OF _ _ kr thin]) (use a b in simp_all)
  have c3: "\<not> near_corner (x + w - r, y + h - r) (1, 1) r k (x + w div 2, y + h div 2)"
    by (rule not_near_corner_behind [OF _ _ kr thin]) (use a b in simp_all)
  have c4: "\<not> near_corner (x + r, y + h - r) (- 1, 1) r k (x + w div 2, y + h div 2)"
    by (rule not_near_corner_behind [OF _ _ kr thin]) (use a b in simp_all)
  show ?thesis
    using a b kr c1 c2 c3 c4 by (simp add: interior_away_def)
qed

text \<open>
  Claim C6. For a bounding box wider and higher than twice the corner radius,
  \<open>draw_bbox\<close> with a thickness that is not negative makes stroke calls only:
  four lines and four arcs of positive width, no fill. Replayed on any raster
  by a backend whose strokes are local, the calls leave every pixel of the
  interior away from the outline as it was. The centre of the box is such a
  pixel whenever the stroke is thin against the radius, which it is for the
  constructor's radius 10 and thickness 2, down to the smallest such box.
\<close>

theorem draw_bbox_interior_untouched:
  assumes loc: "strokes_local paint"
    and t: "0 \<le> t"
    and w: "2 * corner_radius self < w" and h: "2 * corner_radius self < h"
  shows "(\<forall>c \<in> set (new_calls self (draw_bbox self (x, y, w, h) color t)). is_stroke c \<and> \<not> is_fill c) \<and>
         (interior_away (x, y, w, h) (corner_radius self) (t + 1) pt \<longrightarrow>
            render paint (new_calls self (draw_bbox self (x, y, w, h) color t)) img pt = img pt) \<and>
         (t + 1 < corner_radius self \<and>
          2 * ((t + 1) * (t + 1)) < (corner_radius self - (t + 1)) * (corner_radius self - (t + 1)) \<longrightarrow>
            interior_away (x, y, w, h) (corner_radius self) (t + 1) (x + w div 2, y + h div 2))"
proof -
  let ?cs = "draw_bbox_calls self (x, y, w, h) color t"
  have strokes: "\<forall>c \<in> set ?cs. is_stroke c \<and> \<not> is_fill c"
    by (rule draw_bbox_calls_strokes [OF t])
  have same: "render paint ?cs img pt = img pt"
    if ia: "interior_away (x, y, w, h) (corner_radius self) (t + 1) pt"
  proof -
    from draw_bbox_calls_far [OF ia] strokes
    have "\<forall>c \<in> set ?cs. is_stroke c \<and> \<not> reach c pt" by blast
    then show ?thesis by (rule render_untouched [OF loc])
  qed
  have centre: "interior_away (x, y, w, h) (corner_radius self) (t + 1) (x + w div 2, y + h div 2)"
    if "t + 1 < corner_radius self \<and>
          2 * ((t + 1) * (t + 1)) < (corner_radius self - (t + 1)) * (corner_radius self - (t + 1))"
    using that t by (intro centre_interior_away [OF _ _ _ w h]) simp_all
  from strokes same centre show ?thesis
    unfolding draw_bbox_new_calls by blast
qed

lemma box_paint_local: "strokes_local box_paint"
  by (simp add: strokes_local_def box_paint_def split: prim.splits)

theorem draw_bbox_interior_untouched_witness:
  "strokes_local box_paint \<and>
   list_all (\<lambda>c. is_stroke c \<and> \<not> is_fill c)
     (new_calls overlay0 (draw_bbox overlay0 (50, 50, 40, 40) (0, 255, 0) 2)) \<and>
   interior_away (50, 50, 40, 40) 10 3 (70, 70) \<and>
   render box_paint (new_calls overlay0 (draw_bbox overlay0 (50, 50, 40, 40) (0, 255, 0) 2))
     (\<lambda>pt. (7, 7, 7)) (70, 70) = (7, 7, 7) \<and>
   render box_paint (new_calls overlay0 (draw_bbox overlay0 (50, 50, 40, 40) (0, 255, 0) 2))
     (\<lambda>pt. (7, 7, 7)) (50, 70) = (0, 255, 0) \<and>
   interior_away (50, 50, 21, 21) 10 3 (60, 60) \<and>
   render box_paint (new_calls overlay0 (draw_bbox overlay0 (50, 50, 21, 21) (0, 255, 0) 2))
     (\<lambda>pt. (7, 7, 7)) (60, 60) = (7, 7, 7)"
proof -
  have t: "(0::int) \<le> 2" by simp
  have w40: "2 * corner_radius overlay0 < 40" and w21: "2 * corner_radius overlay0 < 21"
    by (simp_all add: overlay0_fields)
  have thin: "2 + 1 < corner_radius overlay0 \<and>
      2 * ((2 + 1) * (2 + 1)) < (corner_radius overlay0 - (2 + 1)) * (corner_radius overlay0 - (2 + 1))"
    by (simp add: overlay0_fields)
  have edge: "render box_paint (new_calls overlay0 (draw_bbox overlay0 (50, 50, 40, 40) (0, 255, 0) 2))
     (\<lambda>pt. (7, 7, 7)) (50, 70) = (0, 255, 0)"
    by (simp add: draw_bbox_new_calls draw_bbox_calls_def Let_def overlay0_fields render_def
        box_paint_def quarter_def near_corner_def)
  have big: "interior_away (50, 50, 40, 40) 10 3 (70, 70) \<and>
      render box_paint (new_calls overlay0 (draw_bbox overlay0 (50, 50, 40, 40) (0, 255, 0) 2))
        (\<lambda>pt. (7, 7, 7)) (70, 70) = (7, 7, 7) \<and>
      list_all (\<lambda>c. is_stroke c \<and> \<not> is_fill c)
        (new_calls overlay0 (draw_bbox overlay0 (50, 50, 40, 40) (0, 255, 0) 2))"
    using draw_bbox_interior_untouched [OF box_paint_local t w40 w40,
        of 50 50 "(0, 255, 0)" "(70, 70)" "\<lambda>pt. (7, 7, 7)"] thin
    by (simp add: overlay0_fields list_all_iff)
  have small: "interior_away (50, 50, 21, 21) 10 3 (60, 60) \<and>
      render box_paint (new_calls overlay0 (draw_bbox overlay0 (50, 50, 21, 21) (0, 255, 0) 2))
        (\<lambda>pt. (7, 7, 7)) (60, 60) = (7, 7, 7)"
    using draw_bbox_interior_untouched [OF box_paint_local t w21 w21,
        of 50 50 "(0, 255, 0)" "(60, 60)" "\<lambda>pt. (7, 7, 7)"] thin
    by (simp add: overlay0_fields)
  from box_paint_local edge big small show ?thesis by simp
qed

end
